theory Spec2Isabelle
  imports Main "HOL-Library.AList" "HOL-Library.Sublist"
begin

section \<open>Strings as Python sees them\<close>

text \<open>
  A Python string is a \<^typ>\<open>string\<close>: a list of characters, each a code point below 256.
  The functions of this section are the builtins the engine calls
  (\<^verbatim>\<open>startswith\<close>, \<^verbatim>\<open>strip\<close>, \<^verbatim>\<open>splitlines\<close>, \<^verbatim>\<open>join\<close>,
  \<^verbatim>\<open>replace\<close>), written out as CPython computes them.
\<close>

definition LF :: char where
  "LF = CHR 0x0A"

definition CR :: char where
  "CR = CHR 0x0D"

definition startswith :: "string \<Rightarrow> string \<Rightarrow> bool" where
  "startswith s p = (take (length p) s = p)"

text \<open>The characters that end a line for \<^verbatim>\<open>unicode.splitlines\<close>.\<close>

definition is_linebreak :: "char \<Rightarrow> bool" where
  "is_linebreak c = (c \<in> set [CHR 0x0A, CHR 0x0B, CHR 0x0C, CHR 0x0D,
                               CHR 0x1C, CHR 0x1D, CHR 0x1E, CHR 0x85])"

text \<open>The characters that \<^verbatim>\<open>unicode.strip()\<close> removes at both ends.\<close>

definition is_space :: "char \<Rightarrow> bool" where
  "is_space c = (c \<in> set [CHR 0x09, CHR 0x0A, CHR 0x0B, CHR 0x0C, CHR 0x0D,
                          CHR 0x1C, CHR 0x1D, CHR 0x1E, CHR 0x1F, CHR 0x20,
                          CHR 0x85, CHR 0xA0])"

definition strip :: "string \<Rightarrow> string" where
  "strip s = rev (dropWhile is_space (rev (dropWhile is_space s)))"

text \<open>
  \<^verbatim>\<open>s.splitlines(False)\<close>: the lines of \<open>s\<close> without their terminators; a
  carriage return followed by a line feed is one terminator, and a terminator at the
  very end opens no further line. The first argument is the line read so far.
\<close>

fun split_acc :: "string \<Rightarrow> string \<Rightarrow> string list" where
  "split_acc cur [] = (if cur = [] then [] else [cur])"
| "split_acc cur (c # cs) =
     (if c = CR \<and> cs \<noteq> [] \<and> hd cs = LF then cur # split_acc [] (tl cs)
      else if is_linebreak c then cur # split_acc [] cs
      else split_acc (cur @ [c]) cs)"

definition splitlines :: "string \<Rightarrow> string list" where
  "splitlines s = split_acc [] s"

text \<open>\<^verbatim>\<open>sep.join(ls)\<close>.\<close>

fun join :: "string \<Rightarrow> string list \<Rightarrow> string" where
  "join sep [] = []"
| "join sep [x] = x"
| "join sep (x # y # ys) = x @ sep @ join sep (y # ys)"


text \<open>
  \<^verbatim>\<open>s.replace(old, new)\<close>: scanning from the left, every occurrence of \<open>old\<close> that
  does not overlap an earlier one is replaced by \<open>new\<close>; an empty \<open>old\<close> matches
  before every character and at the end.
\<close>

fun replace_scan :: "string \<Rightarrow> string \<Rightarrow> string \<Rightarrow> string" where
  "replace_scan old new [] = []"
| "replace_scan old new (c # cs) =
     (if old \<noteq> [] \<and> startswith (c # cs) old
      then new @ replace_scan old new (drop (length old - 1) cs)
      else c # replace_scan old new cs)"

definition py_replace :: "string \<Rightarrow> string \<Rightarrow> string \<Rightarrow> string" where
  "py_replace old new s =
     (if old = [] then new @ concat (map (\<lambda>c. c # new) s)
      else replace_scan old new s)"

text \<open>
  \<^verbatim>\<open>os.path.join(a, b)\<close> on POSIX: an absolute \<open>b\<close> replaces \<open>a\<close>; otherwise the
  two are joined by one slash unless \<open>a\<close> is empty or already ends with one.
\<close>

definition os_path_join :: "string \<Rightarrow> string \<Rightarrow> string" where
  "os_path_join a b =
     (if startswith b ''/'' then b
      else if a = [] \<or> last a = CHR ''/'' then a @ b
      else a @ ''/'' @ b)"

section \<open>Configuration, runtime and checkout\<close>

text \<open>
  The configuration is a \<^verbatim>\<open>Model\<close>: reading an absent field gives the sentinel
  \<^verbatim>\<open>Missing\<close>, here \<^term>\<open>None\<close>. Only the fields the engine reads are kept.
\<close>

record modification =
  action :: "string option"
  match :: "string option"
  replacement :: "string option"

record source_config =
  src_alias :: "string option"
  src_path :: "string option"
  src_dockerfile :: "string option"
  src_modifications :: "modification list option"

record from_config =
  from_member :: "string option"
  from_image :: "string option"
  from_stream :: "string option"

record config =
  cfg_name :: string
  cfg_labels :: "(string \<times> string) list option"
  cfg_owners :: "string list option"
  content_source :: "source_config option"
  cfg_from :: from_config

text \<open>
  Reading through an absent \<^verbatim>\<open>content.source\<close> gives \<^verbatim>\<open>Missing\<close> again, so
  \<^verbatim>\<open>config.content.source.modifications\<close> is \<^verbatim>\<open>Missing\<close> when the source section is.
\<close>

definition source_modifications :: "config \<Rightarrow> modification list option" where
  "source_modifications cfg =
     (case content_source cfg of None \<Rightarrow> None | Some src \<Rightarrow> src_modifications src)"

record metadata =
  md_name :: string
  md_dir :: string
  md_config :: config

datatype node = File string | Dir "(string \<times> node) list"

type_synonym directory = "(string \<times> node) list"

text \<open>The exceptions the engine and the library calls it makes can raise.\<close>

datatype error =
    AssertionError
  | IOError_no_source_alias string
  | IOError_alias_not_registered string string
  | IOError_replace_no_change string string
  | IOError_unknown_action "string option"
  | IOError_assert_dir string
  | IOError_assert_file string
  | IOError_open string
  | OSError string

text \<open>A record left with \<^verbatim>\<open>runtime.add_record\<close>: its type and its fields.\<close>

type_synonym log_record = "string \<times> (string \<times> string) list"

text \<open>
  The object read and written by \<^verbatim>\<open>DockerfileParser\<close>: its ordered label map, the
  base image it was given (if any was assigned), and the text it was parsed from.
\<close>

record dfp =
  dfp_labels :: "(string \<times> string) list"
  dfp_baseimage :: "string option"
  dfp_source :: string

text \<open>
  The runtime and the collaborators that are not part of the engine: the alias table, the
  sibling and stream resolvers, the directory test on the source tree, the recursive copy
  into the checkout, and the build-file parser (the labels and the base image it finds in
  a text, and the text it gives back for its object).
\<close>

record runtime =
  source_alias :: "string \<Rightarrow> string option"
  resolve_image :: "string \<Rightarrow> string"
  resolve_stream :: "string \<Rightarrow> string"
  source_isdir :: "string \<Rightarrow> bool"
  recursive_overwrite :: "string \<Rightarrow> directory \<Rightarrow> directory"
  parse_labels :: "string \<Rightarrow> (string \<times> string) list"
  parse_baseimage :: "string \<Rightarrow> string option"
  dfp_content :: "dfp \<Rightarrow> string"

text \<open>
  The state a reconciliation works on: the path of the checkout directory and its
  entries (it is the working directory of the engine), the managed comment lines, and
  the records left so far.
\<close>

record state =
  distgit_dir :: string
  fs :: directory
  oit_comments :: "string list"
  records :: "log_record list"

definition OIT_COMMENT_PREFIX :: string where
  "OIT_COMMENT_PREFIX = ''#oit## ''"

section \<open>File operations on the checkout\<close>

definition listdir :: "directory \<Rightarrow> string list" where
  "listdir d = map fst d"

definition isfile :: "directory \<Rightarrow> string \<Rightarrow> bool" where
  "isfile d n = (case map_of d n of Some (File _) \<Rightarrow> True | _ \<Rightarrow> False)"

definition isdir :: "directory \<Rightarrow> string \<Rightarrow> bool" where
  "isdir d n = (case map_of d n of Some (Dir _) \<Rightarrow> True | _ \<Rightarrow> False)"

text \<open>\<^verbatim>\<open>os.remove\<close> deletes a file and raises on a directory or a missing name.\<close>

definition os_remove :: "string \<Rightarrow> directory \<Rightarrow> error option \<times> directory" where
  "os_remove n d =
     (case map_of d n of
        Some (File _) \<Rightarrow> (None, AList.delete n d)
      | _ \<Rightarrow> (Some (OSError n), d))"

text \<open>\<^verbatim>\<open>shutil.rmtree\<close> deletes a directory with all it holds and raises otherwise.\<close>

definition rmtree :: "string \<Rightarrow> directory \<Rightarrow> error option \<times> directory" where
  "rmtree n d =
     (case map_of d n of
        Some (Dir _) \<Rightarrow> (None, AList.delete n d)
      | _ \<Rightarrow> (Some (OSError n), d))"

text \<open>
  \<^verbatim>\<open>os.rename(src, dst)\<close> within the directory: it raises when \<open>src\<close> is missing,
  when one of the two is a directory and the other a file, and when \<open>dst\<close> is a
  directory that is not empty; renaming a name to itself changes nothing; otherwise
  \<open>dst\<close> is replaced.
\<close>

definition os_rename :: "string \<Rightarrow> string \<Rightarrow> directory \<Rightarrow> error option \<times> directory" where
  "os_rename src dst d =
     (case map_of d src of
        None \<Rightarrow> (Some (OSError src), d)
      | Some n \<Rightarrow>
          if src = dst then (None, d)
          else (case (n, map_of d dst) of
                  (File _, Some (Dir _)) \<Rightarrow> (Some (OSError dst), d)
                | (Dir _, Some (File _)) \<Rightarrow> (Some (OSError dst), d)
                | (Dir _, Some (Dir (e # es))) \<Rightarrow> (Some (OSError dst), d)
                | _ \<Rightarrow> (None, AList.delete src (AList.delete dst d) @ [(dst, n)])))"

text \<open>\<^verbatim>\<open>os.mkdir\<close> raises when the name is taken.\<close>

definition os_mkdir :: "string \<Rightarrow> directory \<Rightarrow> error option \<times> directory" where
  "os_mkdir n d =
     (case map_of d n of
        None \<Rightarrow> (None, d @ [(n, Dir [])])
      | Some _ \<Rightarrow> (Some (OSError n), d))"

text \<open>Reading and writing a file of the checkout directory by name.\<close>

definition read_file :: "string \<Rightarrow> directory \<Rightarrow> error + string" where
  "read_file n d =
     (case map_of d n of Some (File c) \<Rightarrow> Inr c | _ \<Rightarrow> Inl (IOError_open n))"

definition write_file :: "string \<Rightarrow> string \<Rightarrow> directory \<Rightarrow> error option \<times> directory" where
  "write_file n c d =
     (case map_of d n of
        Some (Dir _) \<Rightarrow> (Some (IOError_open n), d)
      | _ \<Rightarrow> (None, AList.update n (File c) d))"

section \<open>The modification interpreter\<close>

text \<open>
  One pass of the loop of \<^verbatim>\<open>_run_modifications\<close> over a rule: the new text, or the
  exception raised.
\<close>

definition apply_modification :: "modification \<Rightarrow> string \<Rightarrow> error + string" where
  "apply_modification m dockerfile_data =
     (if action m = Some ''replace'' then
        (case match m of
           None \<Rightarrow> Inl AssertionError
         | Some mt \<Rightarrow>
            (case replacement m of
               None \<Rightarrow> Inl AssertionError
             | Some rp \<Rightarrow>
                 (let pre = dockerfile_data;
                      dockerfile_data' = py_replace mt rp pre
                  in if dockerfile_data' = pre
                     then Inl (IOError_replace_no_change mt rp)
                     else Inr dockerfile_data')))
      else Inl (IOError_unknown_action (action m)))"

fun apply_modifications :: "modification list \<Rightarrow> string \<Rightarrow> error + string" where
  "apply_modifications [] dockerfile_data = Inr dockerfile_data"
| "apply_modifications (m # ms) dockerfile_data =
     (case apply_modification m dockerfile_data of
        Inl e \<Rightarrow> Inl e
      | Inr dockerfile_data' \<Rightarrow> apply_modifications ms dockerfile_data')"

text \<open>
  \<^verbatim>\<open>_run_modifications\<close>: read the build-file, run the rules, write it back. It is
  only called when the modifications are not \<^verbatim>\<open>Missing\<close>.
\<close>

definition run_modifications :: "modification list \<Rightarrow> directory \<Rightarrow> error option \<times> directory" where
  "run_modifications mods d =
     (case read_file ''Dockerfile'' d of
        Inl e \<Rightarrow> (Some e, d)
      | Inr dockerfile_data \<Rightarrow>
          (case apply_modifications mods dockerfile_data of
             Inl e \<Rightarrow> (Some e, d)
           | Inr dockerfile_data' \<Rightarrow> write_file ''Dockerfile'' dockerfile_data' d))"

section \<open>The source merge\<close>

text \<open>\<^verbatim>\<open>source_path\<close>: the directory of the source that populates the checkout.\<close>

definition source_path :: "runtime \<Rightarrow> metadata \<Rightarrow> error + string" where
  "source_path rt md =
     (case (case content_source (md_config md) of None \<Rightarrow> None | Some src \<Rightarrow> src_alias src) of
        None \<Rightarrow> Inl (IOError_no_source_alias (md_dir md))
      | Some a \<Rightarrow>
         (case source_alias rt a of
            None \<Rightarrow> Inl (IOError_alias_not_registered a (md_dir md))
          | Some source_root \<Rightarrow>
             (let sub_path = (case content_source (md_config md) of
                                None \<Rightarrow> None | Some src \<Rightarrow> src_path src);
                  p = (case sub_path of None \<Rightarrow> source_root
                                      | Some sp \<Rightarrow> os_path_join source_root sp)
              in if source_isdir rt p then Inr p else Inl (IOError_assert_dir p))))"

text \<open>
  The first loop of \<^verbatim>\<open>_merge_source\<close>, over the names \<^verbatim>\<open>os.listdir\<close> gave:
  hidden entries and \<^verbatim>\<open>additional-tags\<close> are skipped, every other entry is deleted.
\<close>

fun clean_entries :: "string list \<Rightarrow> directory \<Rightarrow> error option \<times> directory" where
  "clean_entries [] d = (None, d)"
| "clean_entries (ent # ents) d =
     (if startswith ent ''.'' then clean_entries ents d
      else if ent \<in> set [''additional-tags''] then clean_entries ents d
      else (case (if isfile d ent then os_remove ent d else rmtree ent d) of
              (Some e, d') \<Rightarrow> (Some e, d')
            | (None, d') \<Rightarrow> clean_entries ents d'))"

definition pre_clean :: "directory \<Rightarrow> error option \<times> directory" where
  "pre_clean d = clean_entries (listdir d) d"

text \<open>
  The build-file of the source may have another name than \<^verbatim>\<open>Dockerfile\<close>: a
  \<^verbatim>\<open>Dockerfile\<close> that came with the copy is removed and the named file is renamed.
\<close>

definition rename_dockerfile :: "config \<Rightarrow> directory \<Rightarrow> error option \<times> directory" where
  "rename_dockerfile cfg d =
     (case (case content_source cfg of None \<Rightarrow> None | Some src \<Rightarrow> src_dockerfile src) of
        None \<Rightarrow> (None, d)
      | Some dockerfile_name \<Rightarrow>
          if dockerfile_name \<noteq> ''Dockerfile'' then
            (case (if isfile d ''Dockerfile'' then os_remove ''Dockerfile'' d else (None, d)) of
               (Some e, d') \<Rightarrow> (Some e, d')
             | (None, d') \<Rightarrow> os_rename dockerfile_name ''Dockerilfe'' d')
          else (None, d))"

text \<open>The second loop: every \<^verbatim>\<open>Dockerfile.*\<close> is removed.\<close>

fun remove_extraneous :: "string list \<Rightarrow> directory \<Rightarrow> error option \<times> directory" where
  "remove_extraneous [] d = (None, d)"
| "remove_extraneous (ent # ents) d =
     (if startswith ent ''Dockerfile.'' then
        (case os_remove ent d of
           (Some e, d') \<Rightarrow> (Some e, d')
         | (None, d') \<Rightarrow> remove_extraneous ents d')
      else remove_extraneous ents d)"

text \<open>
  The copy of the build-file kept from the last reconciliation,
  \<^verbatim>\<open>.oit/Dockerfile.git.last\<close>, as the checkout holds it.
\<close>

definition dockerfile_git_last :: "directory \<Rightarrow> node option" where
  "dockerfile_git_last d =
     (case map_of d ''.oit'' of
        Some (Dir es) \<Rightarrow> map_of es ''Dockerfile.git.last''
      | _ \<Rightarrow> None)"

text \<open>
  The comparison with that copy: the value of \<^verbatim>\<open>notify_owner\<close> and the checkout
  afterwards. \<^verbatim>\<open>filecmp.cmp\<close> raises when \<^verbatim>\<open>Dockerfile\<close> is missing and is false when
  it is not a regular file; \<^verbatim>\<open>shutil.copy\<close> then raises, after the old copy is gone.
\<close>

definition detect_change :: "directory \<Rightarrow> (error + bool) \<times> directory" where
  "detect_change d =
     (case dockerfile_git_last d of
        Some (File last_content) \<Rightarrow>
          (case map_of d ''Dockerfile'' of
             None \<Rightarrow> (Inl (OSError ''Dockerfile''), d)
           | Some (Dir _) \<Rightarrow>
               (Inl (IOError_open ''Dockerfile''),
                AList.map_entry ''.oit''
                  (\<lambda>n. case n of
                          Dir es \<Rightarrow> Dir (AList.delete ''Dockerfile.git.last'' es)
                        | File c \<Rightarrow> File c) d)
           | Some (File new_content) \<Rightarrow>
               if last_content \<noteq> new_content then
                 (Inr True,
                  AList.map_entry ''.oit''
                    (\<lambda>n. case n of
                            Dir es \<Rightarrow> Dir (AList.delete ''Dockerfile.git.last'' es
                                           @ [(''Dockerfile.git.last'', File new_content)])
                          | File c \<Rightarrow> File c) d)
               else (Inr False, d))
      | _ \<Rightarrow> (Inr True, d))"

definition notify_record :: "metadata \<Rightarrow> string \<Rightarrow> string list \<Rightarrow> log_record" where
  "notify_record md dir os =
     (''dockerfile_notify'',
      [(''distgit'', md_name md),
       (''dockerfile'', os_path_join dir ''Dockerfile''),
       (''owners'', join '', '' os)])"

definition source_comments :: "string list" where
  "source_comments =
     [''The content of this file is managed from external source.'',
      ''Changes made directly in distgit will be lost during the next'',
      ''reconciliation process.'',
      []]"

text \<open>\<^verbatim>\<open>_merge_source\<close>, the steps above in the order of the source.\<close>

definition merge_source :: "runtime \<Rightarrow> metadata \<Rightarrow> state \<Rightarrow> error option \<times> state" where
  "merge_source rt md s =
     (case pre_clean (fs s) of
        (Some e, d1) \<Rightarrow> (Some e, s\<lparr>fs := d1\<rparr>)
      | (None, d1) \<Rightarrow>
     (case source_path rt md of
        Inl e \<Rightarrow> (Some e, s\<lparr>fs := d1\<rparr>)
      | Inr p \<Rightarrow>
     (case rename_dockerfile (md_config md) (recursive_overwrite rt p d1) of
        (Some e, d3) \<Rightarrow> (Some e, s\<lparr>fs := d3\<rparr>)
      | (None, d3) \<Rightarrow>
     (case remove_extraneous (listdir d3) d3 of
        (Some e, d4) \<Rightarrow> (Some e, s\<lparr>fs := d4\<rparr>)
      | (None, d4) \<Rightarrow>
     (case detect_change d4 of
        (Inl e, d5) \<Rightarrow> (Some e, s\<lparr>fs := d5\<rparr>)
      | (Inr notify_owner, d5) \<Rightarrow>
          (None,
           s\<lparr>fs := d5,
             records :=
               (case cfg_owners (md_config md) of
                  Some os \<Rightarrow>
                    if notify_owner
                    then records s @ [notify_record md (distgit_dir s) os]
                    else records s
                | None \<Rightarrow> records s),
             oit_comments := oit_comments s @ source_comments\<rparr>))))))"

section \<open>The metadata rewrite\<close>

definition base_comments :: "string list" where
  "base_comments =
     [''This file is managed by the OpenShift Image tool: github.com/openshift/enterprise-images'',
      ''by the OpenShift Continuous Delivery team (#aos-cd-team on IRC).'',
      []]"

definition no_source_comments :: "string list" where
  "no_source_comments =
     [''Some aspects of this file may be managed programmatically. For example, the image name, labels (version,'',
      ''release, and other), and the base FROM. Changes made directly in distgit may be lost during the next'',
      ''reconciliation.'',
      []]"

text \<open>\<^verbatim>\<open>DockerfileParser(path="Dockerfile")\<close> on the text of the build-file.\<close>

definition parse_dockerfile :: "runtime \<Rightarrow> string \<Rightarrow> dfp" where
  "parse_dockerfile rt text =
     \<lparr>dfp_labels = parse_labels rt text,
      dfp_baseimage = parse_baseimage rt text,
      dfp_source = text\<rparr>"

definition set_label :: "string \<Rightarrow> string \<Rightarrow> dfp \<Rightarrow> dfp" where
  "set_label k v p = p\<lparr>dfp_labels := AList.update k v (dfp_labels p)\<rparr>"

fun set_labels :: "(string \<times> string) list \<Rightarrow> dfp \<Rightarrow> dfp" where
  "set_labels [] p = p"
| "set_labels ((k, v) # kvs) p = set_labels kvs (set_label k v p)"

text \<open>
  The assignments of \<^verbatim>\<open>update_distgit_dir\<close> to the labels and the base image of
  the parser object, in the order of the source.
\<close>

definition set_metadata :: "runtime \<Rightarrow> metadata \<Rightarrow> string \<Rightarrow> string \<Rightarrow> dfp \<Rightarrow> dfp" where
  "set_metadata rt md version release p0 =
     (let cfg = md_config md;
          p1 = (case cfg_labels cfg of None \<Rightarrow> p0 | Some ls \<Rightarrow> set_labels ls p0);
          p2 = set_label ''name'' (cfg_name cfg) p1;
          p3 = set_label ''com.redhat.component'' (md_name md) p2;
          p4 = (case from_member (cfg_from cfg) of
                  None \<Rightarrow> p3
                | Some m \<Rightarrow>
                    p3\<lparr>dfp_baseimage :=
                         Some (resolve_image rt m @ '':'' @ version @ ''-'' @ release)\<rparr>);
          p5 = (case from_image (cfg_from cfg) of
                  None \<Rightarrow> p4
                | Some i \<Rightarrow> p4\<lparr>dfp_baseimage := Some i\<rparr>);
          p6 = (case from_stream (cfg_from cfg) of
                  None \<Rightarrow> p5
                | Some st \<Rightarrow> p5\<lparr>dfp_baseimage := Some (resolve_stream rt st)\<rparr>);
          p7 = set_label ''name'' (cfg_name cfg) p6;
          p8 = set_label ''version'' version p7;
          p9 = set_label ''release'' release p8
      in p9)"

text \<open>
  The text written at the end: the lines of the parser's content that are not managed
  comments, joined again, under the managed comment lines.
\<close>

definition is_oit_comment :: "string \<Rightarrow> bool" where
  "is_oit_comment line = startswith (strip line) OIT_COMMENT_PREFIX"

definition comment_block :: "string list \<Rightarrow> string" where
  "comment_block comments = concat (map (\<lambda>c. OIT_COMMENT_PREFIX @ c @ [LF]) comments)"

definition managed_dockerfile :: "string list \<Rightarrow> string \<Rightarrow> string" where
  "managed_dockerfile comments content =
     (let df_lines = splitlines content;
          df_lines' = filter (\<lambda>line. \<not> is_oit_comment line) df_lines;
          df_content = join [LF] df_lines'
      in comment_block comments @ df_content)"

definition rewrite_dockerfile ::
  "runtime \<Rightarrow> metadata \<Rightarrow> string \<Rightarrow> string \<Rightarrow> string list \<Rightarrow> string \<Rightarrow> string" where
  "rewrite_dockerfile rt md version release comments text =
     managed_dockerfile comments
       (dfp_content rt (set_metadata rt md version release (parse_dockerfile rt text)))"

section \<open>The reconciliation\<close>

text \<open>The metadata directory \<^verbatim>\<open>.oit\<close> is made if it does not exist.\<close>

definition make_oit_dir :: "directory \<Rightarrow> error option \<times> directory" where
  "make_oit_dir d = (if \<not> isdir d ''.oit'' then os_mkdir ''.oit'' d else (None, d))"

text \<open>\<^verbatim>\<open>update_distgit_dir\<close>, from the creation of \<^verbatim>\<open>.oit\<close> to the final write.\<close>

definition update_distgit_dir ::
  "runtime \<Rightarrow> metadata \<Rightarrow> string \<Rightarrow> string \<Rightarrow> state \<Rightarrow> error option \<times> state" where
  "update_distgit_dir rt md version release s =
     (let s0 = s\<lparr>oit_comments := base_comments\<rparr> in
      case make_oit_dir (fs s0) of
        (Some e, d1) \<Rightarrow> (Some e, s0\<lparr>fs := d1\<rparr>)
      | (None, d1) \<Rightarrow>
     (case (case content_source (md_config md) of
              Some src \<Rightarrow> merge_source rt md (s0\<lparr>fs := d1\<rparr>)
            | None \<Rightarrow>
                (None, s0\<lparr>fs := d1, oit_comments := oit_comments s0 @ no_source_comments\<rparr>)) of
        (Some e, s2) \<Rightarrow> (Some e, s2)
      | (None, s2) \<Rightarrow>
          if \<not> isfile (fs s2) ''Dockerfile''
          then (Some (IOError_assert_file ''Dockerfile''), s2)
          else
     (case (case source_modifications (md_config md) of
              Some mods \<Rightarrow> run_modifications mods (fs s2)
            | None \<Rightarrow> (None, fs s2)) of
        (Some e, d3) \<Rightarrow> (Some e, s2\<lparr>fs := d3\<rparr>)
      | (None, d3) \<Rightarrow>
     (case read_file ''Dockerfile'' d3 of
        Inl e \<Rightarrow> (Some e, s2\<lparr>fs := d3\<rparr>)
      | Inr text \<Rightarrow>
     (case write_file ''Dockerfile''
             (rewrite_dockerfile rt md version release (oit_comments s2) text) d3 of
        (e, d4) \<Rightarrow> (e, s2\<lparr>fs := d4\<rparr>))))))"

section \<open>Properties of the source merge\<close>

lemma clean_entries_filter:
  "distinct ents \<Longrightarrow> set ents \<subseteq> fst ` set d \<Longrightarrow>
   clean_entries ents d =
     (None, filter (\<lambda>(n, _). startswith n ''.'' \<or> n = ''additional-tags'' \<or> n \<notin> set ents) d)"
proof (induction ents arbitrary: d)
  case Nil
  then show ?case by simp
next
  case (Cons ent ents)
  show ?case
  proof (cases "startswith ent ''.'' \<or> ent = ''additional-tags''")
    case True
    have "clean_entries (ent # ents) d = clean_entries ents d"
      using True by auto
    also have "\<dots> = (None, filter (\<lambda>(n, _). startswith n ''.'' \<or> n = ''additional-tags'' \<or> n \<notin> set ents) d)"
      using Cons by simp
    also have "filter (\<lambda>(n, _). startswith n ''.'' \<or> n = ''additional-tags'' \<or> n \<notin> set ents) d
             = filter (\<lambda>(n, _). startswith n ''.'' \<or> n = ''additional-tags'' \<or> n \<notin> set (ent # ents)) d"
      using True by (intro filter_cong) auto
    finally show ?thesis .
  next
    case False
    from Cons.prems obtain nd where nd: "map_of d ent = Some nd"
      by (metis list.set_intros(1) subsetD map_of_eq_None_iff not_Some_eq)
    have step: "(if isfile d ent then os_remove ent d else rmtree ent d) = (None, AList.delete ent d)"
      using nd by (cases nd) (simp_all add: isfile_def os_remove_def rmtree_def)
    have "fst ` set (AList.delete ent d) = fst ` set d - {ent}"
      by (metis AList.delete_keys set_map set_removeAll)
    then have sub: "set ents \<subseteq> fst ` set (AList.delete ent d)"
      using Cons.prems by auto
    have "clean_entries (ent # ents) d = clean_entries ents (AList.delete ent d)"
      using False step by simp
    also have "\<dots> = (None, filter (\<lambda>(n, _). startswith n ''.'' \<or> n = ''additional-tags'' \<or> n \<notin> set ents) (AList.delete ent d))"
      using Cons.IH[OF _ sub] Cons.prems by simp
    also have "filter (\<lambda>(n, _). startswith n ''.'' \<or> n = ''additional-tags'' \<or> n \<notin> set ents) (AList.delete ent d)
             = filter (\<lambda>(n, _). startswith n ''.'' \<or> n = ''additional-tags'' \<or> n \<notin> set (ent # ents)) d"
      using False by (auto simp: AList.delete_eq intro!: filter_cong)
    finally show ?thesis .
  qed
qed

text \<open>
  Claim C7. The pre-clean of the source merge raises nothing on a directory (whose
  names are distinct) and leaves exactly the entries whose name begins with \<open>.\<close> or is
  \<open>additional-tags\<close>, each as it was and in its place; every other top-level entry is
  gone. On a checkout holding \<open>.oit\<close>, \<open>.gitignore\<close>, \<open>additional-tags\<close> and
  \<open>old.txt\<close>, only \<open>old.txt\<close> is deleted.
\<close>

theorem pre_clean_spares_hidden_and_special:
  assumes "distinct (map fst d)"
  shows "pre_clean d =
           (None, filter (\<lambda>(n, _). startswith n ''.'' \<or> n = ''additional-tags'') d)"
proof -
  have "pre_clean d = (None, filter (\<lambda>(n, _). startswith n ''.'' \<or> n = ''additional-tags'' \<or> n \<notin> set (map fst d)) d)"
    unfolding pre_clean_def listdir_def using assms by (intro clean_entries_filter) auto
  also have "filter (\<lambda>(n, _). startswith n ''.'' \<or> n = ''additional-tags'' \<or> n \<notin> set (map fst d)) d
      = filter (\<lambda>(n, _). startswith n ''.'' \<or> n = ''additional-tags'') d"
    by (intro filter_cong) (auto simp: image_iff)
  finally show ?thesis .
qed

theorem pre_clean_spares_hidden_and_special_witness:
  "pre_clean [(''.oit'', Dir []), (''.gitignore'', File ''*.pyc''),
              (''additional-tags'', File ''v3.6''), (''old.txt'', File ''stale'')]
   = (None, [(''.oit'', Dir []), (''.gitignore'', File ''*.pyc''),
             (''additional-tags'', File ''v3.6'')])"
  using pre_clean_spares_hidden_and_special
          [of "[(''.oit'', Dir []), (''.gitignore'', File ''*.pyc''),
              (''additional-tags'', File ''v3.6''), (''old.txt'', File ''stale'')]"]
  by (simp add: startswith_def)

section \<open>Properties of the modification interpreter\<close>






lemma apply_modifications_append:
  "apply_modifications (ms @ ns) t =
     (case apply_modifications ms t of Inl e \<Rightarrow> Inl e | Inr t' \<Rightarrow> apply_modifications ns t')"
  by (induction ms arbitrary: t) (auto split: sum.splits)



lemma run_modifications_error_keeps:
  "fst (run_modifications mods d) \<noteq> None \<Longrightarrow> snd (run_modifications mods d) = d"
  by (auto simp: run_modifications_def read_file_def write_file_def
           split: sum.splits option.splits node.splits)

text \<open>
  Claim C10. The modification interpreter reads the build-file once and writes it once,
  after the last rule: whenever it ends with an error the checkout is exactly as it
  was; in particular, when a rule fails after the rules before it have succeeded
  (whatever the failure: a missing field, a replacement that changes nothing, an
  unknown action), the error is raised and nothing has been written; when every rule
  succeeds the build-file holds the text of the last rule.
\<close>

theorem run_modifications_atomic:
  "(fst (run_modifications mods d) \<noteq> None \<longrightarrow> snd (run_modifications mods d) = d)
   \<and> (read_file ''Dockerfile'' d = Inr t \<and> apply_modifications ms t = Inr t1
        \<and> apply_modification m t1 = Inl e
      \<longrightarrow> run_modifications (ms @ m # ns) d = (Some e, d))
   \<and> (read_file ''Dockerfile'' d = Inr t \<and> apply_modifications mods t = Inr t'
      \<longrightarrow> run_modifications mods d = (None, AList.update ''Dockerfile'' (File t') d))"
proof (intro conjI impI)
  assume "fst (run_modifications mods d) \<noteq> None"
  then show "snd (run_modifications mods d) = d"
    by (rule run_modifications_error_keeps)
next
  assume a: "read_file ''Dockerfile'' d = Inr t \<and> apply_modifications ms t = Inr t1
        \<and> apply_modification m t1 = Inl e"
  then have "apply_modifications (ms @ m # ns) t = Inl e"
    by (simp add: apply_modifications_append)
  with a show "run_modifications (ms @ m # ns) d = (Some e, d)"
    by (simp add: run_modifications_def)
next
  assume a: "read_file ''Dockerfile'' d = Inr t \<and> apply_modifications mods t = Inr t'"
  then have "\<exists>c. map_of d ''Dockerfile'' = Some (File c)"
    by (auto simp: read_file_def split: option.splits node.splits)
  with a show "run_modifications mods d = (None, AList.update ''Dockerfile'' (File t') d)"
    by (auto simp: run_modifications_def write_file_def)
qed

theorem run_modifications_atomic_witness:
  "run_modifications
     ([\<lparr>action = Some ''replace'', match = Some ''a'', replacement = Some ''b''\<rparr>]
      @ \<lparr>action = Some ''replace'', match = Some ''zz'', replacement = Some ''c''\<rparr> # [])
     [(''.oit'', Dir []), (''Dockerfile'', File ''FROM a'')]
   = (Some (IOError_replace_no_change ''zz'' ''c''),
      [(''.oit'', Dir []), (''Dockerfile'', File ''FROM a'')])
   \<and> run_modifications
     [\<lparr>action = Some ''replace'', match = Some ''a'', replacement = Some ''b''\<rparr>]
     [(''.oit'', Dir []), (''Dockerfile'', File ''FROM a'')]
   = (None, [(''.oit'', Dir []), (''Dockerfile'', File ''FROM b'')])"
  using run_modifications_atomic
          [of "[\<lparr>action = Some ''replace'', match = Some ''a'', replacement = Some ''b''\<rparr>]"
              "[(''.oit'', Dir []), (''Dockerfile'', File ''FROM a'')]"
              "''FROM a''"
              "[\<lparr>action = Some ''replace'', match = Some ''a'', replacement = Some ''b''\<rparr>]"
              "''FROM b''"
              "\<lparr>action = Some ''replace'', match = Some ''zz'', replacement = Some ''c''\<rparr>"
              "IOError_replace_no_change ''zz'' ''c''" "[]" "''FROM b''"]
  by (simp add: read_file_def apply_modification_def py_replace_def startswith_def)

section \<open>Properties of the change detection\<close>

lemma map_entry_keys: "map fst (AList.map_entry k f xs) = map fst xs"
  by (induction xs) auto

lemma detect_change_no_snapshot:
  assumes "\<not> (\<exists>c. dockerfile_git_last d = Some (File c))"
  shows "detect_change d = (Inr True, d)"
proof (cases "dockerfile_git_last d")
  case None
  then show ?thesis by (simp add: detect_change_def)
next
  case (Some n)
  with assms obtain es where "n = Dir es" by (cases n) auto
  with Some show ?thesis by (simp add: detect_change_def)
qed

lemma detect_change_differs:
  assumes last: "dockerfile_git_last d = Some (File c)"
    and new: "map_of d ''Dockerfile'' = Some (File c')"
    and ne: "c \<noteq> c'"
  shows "\<exists>d'. detect_change d = (Inr True, d')
              \<and> dockerfile_git_last d' = Some (File c')
              \<and> (\<forall>n. n \<noteq> ''.oit'' \<longrightarrow> map_of d' n = map_of d n)
              \<and> map fst d' = map fst d"
proof -
  define f where "f = (\<lambda>n. case n of
        Dir es \<Rightarrow> Dir (AList.delete ''Dockerfile.git.last'' es
                       @ [(''Dockerfile.git.last'', File c')])
      | File x \<Rightarrow> File x)"
  from last obtain es where oit: "map_of d ''.oit'' = Some (Dir es)"
    by (auto simp: dockerfile_git_last_def split: option.splits node.splits)
  have run: "detect_change d = (Inr True, AList.map_entry ''.oit'' f d)"
    using last new ne by (simp add: detect_change_def f_def)
  have "map_of (AList.map_entry ''.oit'' f d) ''.oit''
          = Some (Dir (AList.delete ''Dockerfile.git.last'' es
                       @ [(''Dockerfile.git.last'', File c')]))"
    using oit by (simp add: AList.map_of_map_entry f_def)
  then have snap: "dockerfile_git_last (AList.map_entry ''.oit'' f d) = Some (File c')"
    by (simp add: dockerfile_git_last_def map_add_def AList.delete_conv')
  have rest: "\<forall>n. n \<noteq> ''.oit'' \<longrightarrow> map_of (AList.map_entry ''.oit'' f d) n = map_of d n"
    by (simp add: AList.map_of_map_entry)
  have keys: "map fst (AList.map_entry ''.oit'' f d) = map fst d"
    by (rule map_entry_keys)
  show ?thesis
    by (rule exI [where x = "AList.map_entry ''.oit'' f d"]) (simp add: run snap rest keys)
qed

lemma detect_change_same:
  assumes "dockerfile_git_last d = Some (File c)"
    and "map_of d ''Dockerfile'' = Some (File c)"
  shows "detect_change d = (Inr False, d)"
  using assms by (simp add: detect_change_def)

text \<open>
  Claim C3. The comparison with \<open>.oit/Dockerfile.git.last\<close> after the merge: when no
  file is kept there, the owner is to be notified and the checkout is unchanged (no copy
  is created); when the kept file differs from the merged \<open>Dockerfile\<close>, the owner is to
  be notified and the kept file now holds the text of \<open>Dockerfile\<close>, every entry of the
  checkout outside \<open>.oit\<close> being as before; when the two are equal, the owner is not
  notified and the checkout is unchanged.
\<close>

theorem detect_change_cases:
  "(\<not> (\<exists>c. dockerfile_git_last d = Some (File c)) \<longrightarrow> detect_change d = (Inr True, d))
   \<and> (dockerfile_git_last d = Some (File c) \<and> map_of d ''Dockerfile'' = Some (File c')
        \<and> c \<noteq> c'
      \<longrightarrow> (\<exists>d'. detect_change d = (Inr True, d')
                \<and> dockerfile_git_last d' = Some (File c')
                \<and> (\<forall>n. n \<noteq> ''.oit'' \<longrightarrow> map_of d' n = map_of d n)
                \<and> map fst d' = map fst d))
   \<and> (dockerfile_git_last d = Some (File c) \<and> map_of d ''Dockerfile'' = Some (File c)
      \<longrightarrow> detect_change d = (Inr False, d))"
proof (intro conjI impI)
  assume "\<not> (\<exists>c. dockerfile_git_last d = Some (File c))"
  then show "detect_change d = (Inr True, d)"
    by (rule detect_change_no_snapshot)
next
  assume a: "dockerfile_git_last d = Some (File c) \<and> map_of d ''Dockerfile'' = Some (File c')
        \<and> c \<noteq> c'"
  then have "dockerfile_git_last d = Some (File c)"
    and "map_of d ''Dockerfile'' = Some (File c')" and "c \<noteq> c'"
    by simp_all
  then show "\<exists>d'. detect_change d = (Inr True, d')
                \<and> dockerfile_git_last d' = Some (File c')
                \<and> (\<forall>n. n \<noteq> ''.oit'' \<longrightarrow> map_of d' n = map_of d n)
                \<and> map fst d' = map fst d"
    by (rule detect_change_differs)
next
  assume "dockerfile_git_last d = Some (File c) \<and> map_of d ''Dockerfile'' = Some (File c)"
  then have "dockerfile_git_last d = Some (File c)"
    and "map_of d ''Dockerfile'' = Some (File c)"
    by simp_all
  then show "detect_change d = (Inr False, d)"
    by (rule detect_change_same)
qed

theorem detect_change_cases_witness:
  "detect_change [(''.oit'', Dir []), (''Dockerfile'', File ''FROM a'')]
     = (Inr True, [(''.oit'', Dir []), (''Dockerfile'', File ''FROM a'')])
   \<and> (\<exists>d'. detect_change [(''.oit'', Dir [(''Dockerfile.git.last'', File ''FROM a'')]),
                            (''Dockerfile'', File ''FROM b'')] = (Inr True, d')
           \<and> dockerfile_git_last d' = Some (File ''FROM b''))
   \<and> detect_change [(''.oit'', Dir [(''Dockerfile.git.last'', File ''FROM a'')]),
                     (''Dockerfile'', File ''FROM a'')]
     = (Inr False, [(''.oit'', Dir [(''Dockerfile.git.last'', File ''FROM a'')]),
                    (''Dockerfile'', File ''FROM a'')])"
proof (intro conjI)
  show "detect_change [(''.oit'', Dir []), (''Dockerfile'', File ''FROM a'')]
     = (Inr True, [(''.oit'', Dir []), (''Dockerfile'', File ''FROM a'')])"
    using detect_change_cases
            [where d = "[(''.oit'', Dir []), (''Dockerfile'', File ''FROM a'')]", THEN conjunct1]
    by (simp add: dockerfile_git_last_def)
next
  have prem: "dockerfile_git_last [(''.oit'', Dir [(''Dockerfile.git.last'', File ''FROM a'')]),
                            (''Dockerfile'', File ''FROM b'')] = Some (File ''FROM a'')
      \<and> map_of [(''.oit'', Dir [(''Dockerfile.git.last'', File ''FROM a'')]),
                            (''Dockerfile'', File ''FROM b'')] ''Dockerfile'' = Some (File ''FROM b'')
      \<and> ''FROM a'' \<noteq> ''FROM b''"
    by (simp add: dockerfile_git_last_def)
  from detect_change_cases
            [where d = "[(''.oit'', Dir [(''Dockerfile.git.last'', File ''FROM a'')]),
                         (''Dockerfile'', File ''FROM b'')]"
               and c = "''FROM a''" and c' = "''FROM b''",
             THEN conjunct2, THEN conjunct1, rule_format, OF prem]
  obtain d' where "detect_change [(''.oit'', Dir [(''Dockerfile.git.last'', File ''FROM a'')]),
                            (''Dockerfile'', File ''FROM b'')] = (Inr True, d')"
    and "dockerfile_git_last d' = Some (File ''FROM b'')"
    by blast
  then show "\<exists>d'. detect_change [(''.oit'', Dir [(''Dockerfile.git.last'', File ''FROM a'')]),
                            (''Dockerfile'', File ''FROM b'')] = (Inr True, d')
           \<and> dockerfile_git_last d' = Some (File ''FROM b'')"
    by blast
next
  have "dockerfile_git_last [(''.oit'', Dir [(''Dockerfile.git.last'', File ''FROM a'')]),
                            (''Dockerfile'', File ''FROM a'')] = Some (File ''FROM a'')"
    by (simp add: dockerfile_git_last_def)
  then show "detect_change [(''.oit'', Dir [(''Dockerfile.git.last'', File ''FROM a'')]),
                     (''Dockerfile'', File ''FROM a'')]
     = (Inr False, [(''.oit'', Dir [(''Dockerfile.git.last'', File ''FROM a'')]),
                    (''Dockerfile'', File ''FROM a'')])"
    using detect_change_cases
            [where d = "[(''.oit'', Dir [(''Dockerfile.git.last'', File ''FROM a'')]),
                         (''Dockerfile'', File ''FROM a'')]"
               and c = "''FROM a''", THEN conjunct2, THEN conjunct2]
    by simp
qed

section \<open>Properties of the metadata rewrite\<close>











section \<open>The renaming of a build-file with another name\<close>

text \<open>
  Claim C2. With \<open>Dockerfile.rhel\<close> configured as the build-file of the source and
  present after the copy, beside a \<open>Dockerfile\<close> that came with the copy: the
  \<open>Dockerfile\<close> is removed, and \<open>Dockerfile.rhel\<close> is renamed to \<open>Dockerilfe\<close>, not to
  \<open>Dockerfile\<close>; no file \<open>Dockerfile\<close> exists afterwards.
\<close>

theorem rename_dockerfile_misses_name:
  "rename_dockerfile
     \<lparr>cfg_name = ''openshift3/foo'', cfg_labels = None, cfg_owners = None,
      content_source = Some \<lparr>src_alias = Some ''A'', src_path = None,
                             src_dockerfile = Some ''Dockerfile.rhel'',
                             src_modifications = None\<rparr>,
      cfg_from = \<lparr>from_member = None, from_image = None, from_stream = None\<rparr>\<rparr>
     [(''.oit'', Dir []), (''Dockerfile'', File ''FROM centos''),
      (''Dockerfile.rhel'', File ''FROM rhel'')]
   = (None, [(''.oit'', Dir []), (''Dockerilfe'', File ''FROM rhel'')])
   \<and> \<not> isfile [(''.oit'', Dir []), (''Dockerilfe'', File ''FROM rhel'')] ''Dockerfile''"
  by (simp add: rename_dockerfile_def isfile_def os_remove_def os_rename_def)

section \<open>Properties of the final text\<close>

lemma LF_linebreak: "is_linebreak LF"
  by (simp add: is_linebreak_def LF_def)

lemma CR_linebreak: "is_linebreak CR"
  by (simp add: is_linebreak_def CR_def)

lemma LF_not_CR: "LF \<noteq> CR"
  by (simp add: LF_def CR_def)



lemma split_acc_line:
  "\<forall>ch\<in>set l. \<not> is_linebreak ch \<Longrightarrow>
   split_acc cur (l @ LF # rest) = (cur @ l) # split_acc [] rest"
proof (induction l arbitrary: cur)
  case Nil
  show ?case using LF_linebreak LF_not_CR by simp
next
  case (Cons c l)
  have nb: "\<not> is_linebreak c" using Cons.prems by simp
  then have "c \<noteq> CR" using CR_linebreak by auto
  then have "split_acc cur ((c # l) @ LF # rest) = split_acc (cur @ [c]) (l @ LF # rest)"
    using nb by simp
  also have "\<dots> = ((cur @ [c]) @ l) # split_acc [] rest"
    using Cons.prems by (intro Cons.IH) simp
  finally show ?case by simp
qed

lemma split_acc_no_break:
  "\<forall>ch\<in>set l. \<not> is_linebreak ch \<Longrightarrow>
   split_acc cur l = (if cur @ l = [] then [] else [cur @ l])"
proof (induction l arbitrary: cur)
  case Nil
  show ?case by simp
next
  case (Cons c l)
  have nb: "\<not> is_linebreak c" using Cons.prems by simp
  then have "c \<noteq> CR" using CR_linebreak by auto
  then have "split_acc cur (c # l) = split_acc (cur @ [c]) l"
    using nb by simp
  also have "\<dots> = (if (cur @ [c]) @ l = [] then [] else [(cur @ [c]) @ l])"
    using Cons.prems by (intro Cons.IH) simp
  finally show ?case by simp
qed








section \<open>The managed comment lines on a second run\<close>

lemma prefix_no_break: "\<forall>ch\<in>set OIT_COMMENT_PREFIX. \<not> is_linebreak ch"
  by (simp add: OIT_COMMENT_PREFIX_def is_linebreak_def)

lemma prefix_line_kept: "\<not> is_oit_comment (OIT_COMMENT_PREFIX @ [])"
  by (simp add: is_oit_comment_def strip_def is_space_def startswith_def OIT_COMMENT_PREFIX_def)

lemma splitlines_comment_block:
  "\<forall>c\<in>set cs. \<forall>ch\<in>set c. \<not> is_linebreak ch \<Longrightarrow>
   splitlines (comment_block cs @ rest) = map ((@) OIT_COMMENT_PREFIX) cs @ splitlines rest"
proof (induction cs)
  case Nil
  show ?case by (simp add: comment_block_def)
next
  case (Cons c cs)
  have nb: "\<forall>ch\<in>set (OIT_COMMENT_PREFIX @ c). \<not> is_linebreak ch"
    using Cons.prems prefix_no_break by auto
  have "comment_block (c # cs) @ rest
          = (OIT_COMMENT_PREFIX @ c) @ LF # (comment_block cs @ rest)"
    by (simp add: comment_block_def)
  then have "splitlines (comment_block (c # cs) @ rest)
          = ([] @ (OIT_COMMENT_PREFIX @ c)) # split_acc [] (comment_block cs @ rest)"
    unfolding splitlines_def using split_acc_line [OF nb] by simp
  also have "split_acc [] (comment_block cs @ rest)
          = map ((@) OIT_COMMENT_PREFIX) cs @ splitlines rest"
    using Cons.IH Cons.prems by (simp add: splitlines_def)
  finally show ?case by simp
qed

lemma split_acc_lines_no_break:
  "\<forall>ch\<in>set cur. \<not> is_linebreak ch \<Longrightarrow>
   \<forall>l\<in>set (split_acc cur s). \<forall>ch\<in>set l. \<not> is_linebreak ch"
proof (induction cur s rule: split_acc.induct)
  case (1 cur)
  then show ?case by simp
next
  case (2 cur c cs)
  show ?case
  proof (cases "c = CR \<and> cs \<noteq> [] \<and> hd cs = LF")
    case True
    have eq: "split_acc cur (c # cs) = cur # split_acc [] (tl cs)"
      using True by simp
    have "\<forall>l\<in>set (split_acc [] (tl cs)). \<forall>ch\<in>set l. \<not> is_linebreak ch"
      using "2.IH"(1) [OF True] by simp
    then show ?thesis
      unfolding eq using "2.prems" by simp
  next
    case False
    note nocrlf = this
    show ?thesis
    proof (cases "is_linebreak c")
      case True
      have eq: "split_acc cur (c # cs) = cur # split_acc [] cs"
        using nocrlf True by auto
      have "\<forall>l\<in>set (split_acc [] cs). \<forall>ch\<in>set l. \<not> is_linebreak ch"
        using "2.IH"(2) [OF nocrlf True] by simp
      then show ?thesis
        unfolding eq using "2.prems" by simp
    next
      case False
      have eq: "split_acc cur (c # cs) = split_acc (cur @ [c]) cs"
        using nocrlf False by auto
      have "\<forall>ch\<in>set (cur @ [c]). \<not> is_linebreak ch"
        using "2.prems" False by simp
      then show ?thesis
        unfolding eq by (rule "2.IH"(3) [OF nocrlf False])
    qed
  qed
qed

lemma splitlines_no_break: "\<forall>l\<in>set (splitlines s). \<forall>ch\<in>set l. \<not> is_linebreak ch"
  unfolding splitlines_def by (rule split_acc_lines_no_break) simp

lemma splitlines_join:
  "\<forall>l\<in>set ls. \<forall>ch\<in>set l. \<not> is_linebreak ch \<Longrightarrow>
   splitlines (join [LF] ls) = (if ls \<noteq> [] \<and> last ls = [] then butlast ls else ls)"
proof (induction "[LF]" ls rule: join.induct)
  case 1
  show ?case by (simp add: splitlines_def)
next
  case (2 x)
  then show ?case by (simp add: splitlines_def split_acc_no_break)
next
  case (3 x y ys)
  have nb: "\<forall>ch\<in>set x. \<not> is_linebreak ch" using "3.prems" by simp
  have "splitlines (join [LF] (x # y # ys)) = ([] @ x) # split_acc [] (join [LF] (y # ys))"
    unfolding splitlines_def using split_acc_line [OF nb] by simp
  also have "split_acc [] (join [LF] (y # ys))
          = (if last (y # ys) = [] then butlast (y # ys) else y # ys)"
    using "3.hyps" "3.prems" by (simp add: splitlines_def)
  finally show ?case by simp
qed

lemma managed_twice_differs:
  assumes nb: "\<forall>c\<in>set cs. \<forall>ch\<in>set c. \<not> is_linebreak ch"
    and blank: "cs = as @ [] # bs @ [] # ds"
  shows "managed_dockerfile cs (managed_dockerfile cs content) \<noteq> managed_dockerfile cs content"
proof
  define keep where "keep = (\<lambda>line. \<not> is_oit_comment line)"
  define J where "J = join [LF] (filter keep (splitlines content))"
  define K' where "K' = filter keep (splitlines J)"
  define Hk where "Hk = filter keep (map ((@) OIT_COMMENT_PREFIX) cs)"
  define L where "L = Hk @ K'"
  have first: "managed_dockerfile cs content = comment_block cs @ J"
    by (simp add: managed_dockerfile_def Let_def J_def keep_def)
  have "filter keep (splitlines (comment_block cs @ J)) = L"
    using nb by (simp add: splitlines_comment_block Hk_def K'_def L_def)
  then have second: "managed_dockerfile cs (comment_block cs @ J) = comment_block cs @ join [LF] L"
    by (simp add: managed_dockerfile_def Let_def keep_def)
  assume "managed_dockerfile cs (managed_dockerfile cs content) = managed_dockerfile cs content"
  then have eq: "join [LF] L = J"
    using first second by simp
  have keepP: "keep (OIT_COMMENT_PREFIX @ [])"
    using prefix_line_kept by (simp add: keep_def)
  have "Hk = filter keep (map ((@) OIT_COMMENT_PREFIX) as) @ (OIT_COMMENT_PREFIX @ [])
               # filter keep (map ((@) OIT_COMMENT_PREFIX) bs) @ (OIT_COMMENT_PREFIX @ [])
               # filter keep (map ((@) OIT_COMMENT_PREFIX) ds)"
    unfolding Hk_def blank using keepP by simp
  then have len: "2 \<le> length Hk"
    by simp
  have Lnb: "\<forall>l\<in>set L. \<forall>ch\<in>set l. \<not> is_linebreak ch"
    using nb prefix_no_break splitlines_no_break
    by (auto simp: L_def Hk_def K'_def)
  have Lkeep: "\<forall>l\<in>set L. keep l"
    by (auto simp: L_def Hk_def K'_def)
  have "splitlines J = (if L \<noteq> [] \<and> last L = [] then butlast L else L)"
    using splitlines_join [OF Lnb] eq by simp
  then have "K' = filter keep (if L \<noteq> [] \<and> last L = [] then butlast L else L)"
    by (simp add: K'_def)
  also have "\<dots> = (if L \<noteq> [] \<and> last L = [] then butlast L else L)"
    using Lkeep by (auto simp: filter_id_conv dest: in_set_butlastD)
  finally have "length K' \<ge> length L - 1"
    by (simp split: if_splits)
  then show False
    using len by (simp add: L_def)
qed

lemma base_comments_no_break: "\<forall>c\<in>set base_comments. \<forall>ch\<in>set c. \<not> is_linebreak ch"
  by (simp add: base_comments_def is_linebreak_def)

lemma no_source_comments_no_break:
  "\<forall>c\<in>set no_source_comments. \<forall>ch\<in>set c. \<not> is_linebreak ch"
  by (simp add: no_source_comments_def is_linebreak_def)

lemma source_comments_no_break:
  "\<forall>c\<in>set source_comments. \<forall>ch\<in>set c. \<not> is_linebreak ch"
  by (simp add: source_comments_def is_linebreak_def)

lemma no_source_block_twice:
  "managed_dockerfile (base_comments @ no_source_comments)
     (managed_dockerfile (base_comments @ no_source_comments) content)
   \<noteq> managed_dockerfile (base_comments @ no_source_comments) content"
proof (rule managed_twice_differs)
  show "\<forall>c\<in>set (base_comments @ no_source_comments). \<forall>ch\<in>set c. \<not> is_linebreak ch"
    using base_comments_no_break no_source_comments_no_break by auto
  show "base_comments @ no_source_comments
          = butlast base_comments @ [] # butlast no_source_comments @ [] # []"
    by (simp add: base_comments_def no_source_comments_def)
qed

lemma source_block_twice:
  "managed_dockerfile (base_comments @ source_comments)
     (managed_dockerfile (base_comments @ source_comments) content)
   \<noteq> managed_dockerfile (base_comments @ source_comments) content"
proof (rule managed_twice_differs)
  show "\<forall>c\<in>set (base_comments @ source_comments). \<forall>ch\<in>set c. \<not> is_linebreak ch"
    using base_comments_no_break source_comments_no_break by auto
  show "base_comments @ source_comments
          = butlast base_comments @ [] # butlast source_comments @ [] # []"
    by (simp add: base_comments_def source_comments_def)
qed

text \<open>
  Claim C5. The step that removes the managed comment lines of an earlier run and puts
  the current ones on top, applied to its own output, never gives that output again,
  whatever the content and for either comment block the engine writes: the two empty
  comments are written as the marker alone, \<open>strip\<close> takes the blank at the end of
  the marker away, the line no longer begins with the marker and is kept, so each run
  adds two such lines under the block.
\<close>

theorem managed_dockerfile_not_idempotent:
  "managed_dockerfile (base_comments @ no_source_comments)
     (managed_dockerfile (base_comments @ no_source_comments) content)
   \<noteq> managed_dockerfile (base_comments @ no_source_comments) content
   \<and> managed_dockerfile (base_comments @ source_comments)
     (managed_dockerfile (base_comments @ source_comments) content)
   \<noteq> managed_dockerfile (base_comments @ source_comments) content
   \<and> managed_dockerfile [[]] (managed_dockerfile [[]] ''FROM rhel7'')
     = ''#oit## '' @ [LF] @ ''#oit## '' @ [LF] @ ''FROM rhel7''"
proof (intro conjI)
  have 1: "splitlines ''FROM rhel7'' = [''FROM rhel7'']"
    by (simp add: splitlines_def is_linebreak_def CR_def)
  have 2: "splitlines (''#oit## '' @ [LF] @ ''FROM rhel7'') = [''#oit## '', ''FROM rhel7'']"
    by (simp add: splitlines_def is_linebreak_def CR_def LF_def)
  have 3: "\<not> is_oit_comment ''FROM rhel7''"
    by (simp add: is_oit_comment_def strip_def is_space_def startswith_def OIT_COMMENT_PREFIX_def)
  have 4: "\<not> is_oit_comment ''#oit## ''"
    by (simp add: is_oit_comment_def strip_def is_space_def startswith_def OIT_COMMENT_PREFIX_def)
  have "managed_dockerfile [[]] ''FROM rhel7'' = ''#oit## '' @ [LF] @ ''FROM rhel7''"
    by (simp add: managed_dockerfile_def comment_block_def Let_def 1 3 OIT_COMMENT_PREFIX_def)
  moreover have "managed_dockerfile [[]] (''#oit## '' @ [LF] @ ''FROM rhel7'')
      = ''#oit## '' @ [LF] @ ''#oit## '' @ [LF] @ ''FROM rhel7''"
    by (simp add: managed_dockerfile_def comment_block_def Let_def 2 [simplified] 3 4
          OIT_COMMENT_PREFIX_def)
  ultimately show "managed_dockerfile [[]] (managed_dockerfile [[]] ''FROM rhel7'')
     = ''#oit## '' @ [LF] @ ''#oit## '' @ [LF] @ ''FROM rhel7''"
    by simp
qed (rule no_source_block_twice, rule source_block_twice)

end
